theory Spec2Isabelle
  imports Main "HOL-Library.Word"
begin

section \<open>The record parser of \<open>src/main.c\<close>\<close>

text \<open>
  \<open>parse_next_kv\<close> scans a byte buffer \<open>fbuffer\<close> of which the first \<open>read_res\<close>
  bytes were filled by \<open>read\<close>. The buffer is modelled as the memory seen through the
  pointer: a function from offsets to bytes, so that a read at an offset \<open>\<ge> read_res\<close>
  returns whatever the memory holds there, as it does in C. The cursor \<open>*pos\<close> and
  the counter \<open>*line\<close> start at 0 in both callers and only grow, so they are naturals.

  Every read of \<open>fbuffer\<close> and every write to the scratch arrays \<open>key\<close> and
  \<open>value\<close> (both \<open>char[MAX_ITEM_LEN]\<close>) is logged, most recent first. A condition that
  reads the same offset several times logs it once. The arrays are modelled by the bytes
  copied so far, \<open>n\<close> being their number; a terminating NUL written at index \<open>n\<close> is
  logged as a write at \<open>n\<close>.

  The model is exact as long as every logged write is at an index below
  \<open>MAX_ITEM_LEN\<close>, that is, as long as fewer than 256 bytes are copied into each array.
  When 256 bytes are copied the NUL goes to index 256, outside the array, and C leaves
  open what it overwrites (in a caller's frame it may be the first byte of the other
  array). The model logs that write and changes nothing else, so what it returns after
  such a write need not be what the compiled code returns; \<open>writes_in_bounds\<close> below
  says of a log that no such write happened.
\<close>

definition MAX_ITEM_LEN :: nat where
  "MAX_ITEM_LEN = 256"

abbreviation SP :: char where "SP \<equiv> CHR 0x20"
abbreviation NL :: char where "NL \<equiv> CHR 0x0A"
abbreviation EQ :: char where "EQ \<equiv> CHR 0x3D"
abbreviation HASH :: char where "HASH \<equiv> CHR 0x23"
abbreviation DQUOTE :: char where "DQUOTE \<equiv> CHR 0x22"
abbreviation NUL :: char where "NUL \<equiv> CHR 0x00"

datatype access = BufRead nat | KeyWrite nat | ValueWrite nat


text \<open>\<^verbatim>\<open>while (*pos < read_res && fbuffer[*pos] == ' ') (*pos)++;\<close>\<close>

function skip_spaces :: "(nat \<Rightarrow> char) \<Rightarrow> nat \<Rightarrow> nat \<Rightarrow> access list \<Rightarrow> nat \<times> access list" where
  "skip_spaces fbuffer read_res pos tr =
     (if pos < read_res then
        (if fbuffer pos = SP then skip_spaces fbuffer read_res (pos + 1) (BufRead pos # tr)
         else (pos, BufRead pos # tr))
      else (pos, tr))"
  by pat_completeness auto
termination
  by (relation "measure (\<lambda>(fbuffer, read_res, pos, tr). read_res - pos)") auto

declare skip_spaces.simps [simp del]

text \<open>\<^verbatim>\<open>while (*pos < read_res && fbuffer[*pos] == '\n') { (*pos)++; (*line)++; }\<close>\<close>

function skip_newlines ::
  "(nat \<Rightarrow> char) \<Rightarrow> nat \<Rightarrow> nat \<Rightarrow> nat \<Rightarrow> access list \<Rightarrow> nat \<times> nat \<times> access list" where
  "skip_newlines fbuffer read_res pos line tr =
     (if pos < read_res then
        (if fbuffer pos = NL
         then skip_newlines fbuffer read_res (pos + 1) (line + 1) (BufRead pos # tr)
         else (pos, line, BufRead pos # tr))
      else (pos, line, tr))"
  by pat_completeness auto
termination
  by (relation "measure (\<lambda>(fbuffer, read_res, pos, line, tr). read_res - pos)") auto

declare skip_newlines.simps [simp del]

text \<open>\<^verbatim>\<open>while (*pos < read_res && fbuffer[*pos] != '\n') (*pos)++;\<close>\<close>

function skip_comment :: "(nat \<Rightarrow> char) \<Rightarrow> nat \<Rightarrow> nat \<Rightarrow> access list \<Rightarrow> nat \<times> access list" where
  "skip_comment fbuffer read_res pos tr =
     (if pos < read_res then
        (if fbuffer pos \<noteq> NL then skip_comment fbuffer read_res (pos + 1) (BufRead pos # tr)
         else (pos, BufRead pos # tr))
      else (pos, tr))"
  by pat_completeness auto
termination
  by (relation "measure (\<lambda>(fbuffer, read_res, pos, tr). read_res - pos)") auto

declare skip_comment.simps [simp del]

text \<open>
  The key loop; \<open>n\<close> is \<open>length key\<close>:
  \<^verbatim>\<open>
  while (*pos < read_res && n < MAX_ITEM_LEN && fbuffer[*pos] != '=' &&
         fbuffer[*pos] != '\n' && fbuffer[*pos] != ' ') {
    key[n++] = fbuffer[(*pos)++];
  }\<close>
\<close>

function scan_key ::
  "(nat \<Rightarrow> char) \<Rightarrow> nat \<Rightarrow> nat \<Rightarrow> string \<Rightarrow> access list \<Rightarrow> nat \<times> string \<times> access list" where
  "scan_key fbuffer read_res pos key tr =
     (if pos < read_res \<and> length key < MAX_ITEM_LEN then
        (if fbuffer pos \<noteq> EQ \<and> fbuffer pos \<noteq> NL \<and> fbuffer pos \<noteq> SP
         then scan_key fbuffer read_res (pos + 1) (key @ [fbuffer pos])
                (KeyWrite (length key) # BufRead pos # tr)
         else (pos, key, BufRead pos # tr))
      else (pos, key, tr))"
  by pat_completeness auto
termination
  by (relation "measure (\<lambda>(fbuffer, read_res, pos, key, tr). read_res - pos)") auto

declare scan_key.simps [simp del]

text \<open>
  The value loop; \<open>n\<close> is \<open>length val\<close>:
  \<^verbatim>\<open>
  while (*pos < read_res && n < MAX_ITEM_LEN && fbuffer[*pos] != '\n') {
    value[n++] = fbuffer[(*pos)++];
  }\<close>
\<close>

function scan_value ::
  "(nat \<Rightarrow> char) \<Rightarrow> nat \<Rightarrow> nat \<Rightarrow> string \<Rightarrow> access list \<Rightarrow> nat \<times> string \<times> access list" where
  "scan_value fbuffer read_res pos val tr =
     (if pos < read_res \<and> length val < MAX_ITEM_LEN then
        (if fbuffer pos \<noteq> NL
         then scan_value fbuffer read_res (pos + 1) (val @ [fbuffer pos])
                (ValueWrite (length val) # BufRead pos # tr)
         else (pos, val, BufRead pos # tr))
      else (pos, val, tr))"
  by pat_completeness auto
termination
  by (relation "measure (\<lambda>(fbuffer, read_res, pos, val, tr). read_res - pos)") auto

declare scan_value.simps [simp del]

text \<open>\<^verbatim>\<open>while (n > 0 && value[n - 1] == ' ') { value[--n] = '\0'; }\<close>\<close>

function trim_trailing :: "string \<Rightarrow> access list \<Rightarrow> string \<times> access list" where
  "trim_trailing val tr =
     (if length val > 0 \<and> last val = SP
      then trim_trailing (butlast val) (ValueWrite (length val - 1) # tr)
      else (val, tr))"
  by pat_completeness auto
termination
  by (relation "measure (\<lambda>(val, tr). length val)") auto

declare trim_trailing.simps [simp del]

text \<open>
  The surrounding double quotes:
  \<^verbatim>\<open>
  if (n >= 2 && value[0] == '"' && value[n - 1] == '"') {
    memmove (value, value + 1, n - 2);
    value[n - 2] = '\0';
    n -= 2;
  }\<close>
  \<open>memmove\<close> writes the indices \<open>0 .. n - 3\<close>.
\<close>

definition strip_quotes :: "string \<Rightarrow> access list \<Rightarrow> string \<times> access list" where
  "strip_quotes val tr =
     (if length val \<ge> 2 \<and> hd val = DQUOTE \<and> last val = DQUOTE
      then (butlast (tl val),
            ValueWrite (length val - 2) # rev (map ValueWrite [0 ..< length val - 2]) @ tr)
      else (val, tr))"

record kv_result =
  ret :: int
  new_pos :: nat
  new_line :: nat
  out_key :: string
  out_value :: string
  log :: "access list"

text \<open>
  Lines 84 to 126: what one iteration of the outer loop does once it has found the start
  of a key. It always returns. When it returns \<open>- 1\<close> the value array was not
  written during this call; \<open>old_value\<close> is what it held before. The writes
  \<open>key[n] = 0\<close> and \<open>value[n] = 0\<close> are logged at \<open>n\<close>; at \<open>n = 256\<close> they fall
  outside the arrays and the returned \<open>out_key\<close> and \<open>out_value\<close> are then those of
  the model only.
\<close>

definition parse_record ::
  "(nat \<Rightarrow> char) \<Rightarrow> nat \<Rightarrow> nat \<Rightarrow> nat \<Rightarrow> string \<Rightarrow> access list \<Rightarrow> kv_result" where
  "parse_record fbuffer read_res pos line old_value tr =
     (case scan_key fbuffer read_res pos [] tr of (pos1, key, tr1) \<Rightarrow>
      let tr2 = KeyWrite (length key) # tr1 in
      case skip_spaces fbuffer read_res pos1 tr2 of (pos2, tr3) \<Rightarrow>
      let tr4 = BufRead pos2 # tr3 in
      if fbuffer pos2 \<noteq> EQ
      then \<lparr>ret = - 1, new_pos = pos2, new_line = line, out_key = key,
            out_value = old_value, log = tr4\<rparr>
      else
        case skip_spaces fbuffer read_res (pos2 + 1) tr4 of (pos3, tr5) \<Rightarrow>
        case scan_value fbuffer read_res pos3 [] tr5 of (pos4, val, tr6) \<Rightarrow>
        let tr7 = ValueWrite (length val) # tr6 in
        case trim_trailing val tr7 of (val1, tr8) \<Rightarrow>
        case strip_quotes val1 tr8 of (val2, tr9) \<Rightarrow>
        \<lparr>ret = 1, new_pos = pos4 + 1, new_line = line, out_key = key,
         out_value = val2, log = tr9\<rparr>)"

lemma skip_spaces_ge: "skip_spaces fbuffer read_res pos tr = (p, t) \<Longrightarrow> pos \<le> p"
  by (induction fbuffer read_res pos tr rule: skip_spaces.induct)
     (subst (asm) skip_spaces.simps, auto split: if_splits)

lemma skip_newlines_ge:
  "skip_newlines fbuffer read_res pos line tr = (p, l, t) \<Longrightarrow> pos \<le> p"
  by (induction fbuffer read_res pos line tr rule: skip_newlines.induct)
     (subst (asm) skip_newlines.simps, auto split: if_splits)

lemma skip_comment_ge: "skip_comment fbuffer read_res pos tr = (p, t) \<Longrightarrow> pos \<le> p"
  by (induction fbuffer read_res pos tr rule: skip_comment.induct)
     (subst (asm) skip_comment.simps, auto split: if_splits)

text \<open>
  The outer loop \<^verbatim>\<open>while (*pos < read_res) { ... }\<close> of \<open>parse_next_kv\<close>: each of
  the three \<^verbatim>\<open>continue\<close> branches is a recursive call. \<open>key\<close> and \<open>val\<close> are the
  contents of the caller's scratch arrays on entry, returned unchanged when no record is
  scanned.
\<close>

function parse_next_kv ::
  "(nat \<Rightarrow> char) \<Rightarrow> nat \<Rightarrow> nat \<Rightarrow> nat \<Rightarrow> string \<Rightarrow> string \<Rightarrow> access list \<Rightarrow> kv_result" where
  "parse_next_kv fbuffer read_res pos line key val tr =
     (if pos < read_res then
        (if fbuffer pos = SP then
           (case skip_spaces fbuffer read_res (pos + 1) (BufRead pos # tr) of (p, t) \<Rightarrow>
              parse_next_kv fbuffer read_res p line key val t)
         else if fbuffer pos = NL then
           (case skip_newlines fbuffer read_res (pos + 1) line (BufRead pos # tr) of (p, l, t) \<Rightarrow>
              parse_next_kv fbuffer read_res p l key val t)
         else if fbuffer pos = HASH then
           (case skip_comment fbuffer read_res (pos + 1) (BufRead pos # tr) of (p, t) \<Rightarrow>
              parse_next_kv fbuffer read_res (if p < read_res then p + 1 else p) (line + 1)
                key val t)
         else parse_record fbuffer read_res pos line val (BufRead pos # tr))
      else \<lparr>ret = 0, new_pos = pos, new_line = line, out_key = key, out_value = val, log = tr\<rparr>)"
  by pat_completeness auto
termination
  by (relation "measure (\<lambda>(fbuffer, read_res, pos, line, key, val, tr). read_res - pos)")
     (auto dest!: skip_spaces_ge [OF sym] skip_newlines_ge [OF sym] skip_comment_ge [OF sym])

declare parse_next_kv.simps [simp del]

lemma scan_key_ge: "scan_key fbuffer read_res pos key tr = (p, k, t) \<Longrightarrow> pos \<le> p"
  by (induction fbuffer read_res pos key tr rule: scan_key.induct)
     (subst (asm) scan_key.simps, auto split: if_splits)

lemma scan_value_ge: "scan_value fbuffer read_res pos val tr = (p, v, t) \<Longrightarrow> pos \<le> p"
  by (induction fbuffer read_res pos val tr rule: scan_value.induct)
     (subst (asm) scan_value.simps, auto split: if_splits)

lemma parse_record_advances_aux:
  "parse_record fbuffer read_res pos line old_value tr = r \<Longrightarrow> 0 < ret r \<Longrightarrow> pos < new_pos r"
  by (auto simp: parse_record_def Let_def split: prod.splits if_splits
           dest!: scan_key_ge skip_spaces_ge scan_value_ge)

lemma parse_record_advances:
  "0 < ret (parse_record fbuffer read_res pos line old_value tr) \<Longrightarrow>
   pos < new_pos (parse_record fbuffer read_res pos line old_value tr)"
  using parse_record_advances_aux by blast

lemma parse_next_kv_advances:
  "0 < ret (parse_next_kv fbuffer read_res pos line key val tr) \<Longrightarrow>
   pos < new_pos (parse_next_kv fbuffer read_res pos line key val tr)"
proof (induction fbuffer read_res pos line key val tr rule: parse_next_kv.induct)
  case (1 fbuffer read_res pos line key val tr)
  show ?case
  proof (cases "pos < read_res")
    case False
    with "1.prems" show ?thesis by (simp add: parse_next_kv.simps)
  next
    case in_buf: True
    consider (sp) "fbuffer pos = SP"
      | (nl) "fbuffer pos \<noteq> SP" "fbuffer pos = NL"
      | (hash) "fbuffer pos \<noteq> SP" "fbuffer pos \<noteq> NL" "fbuffer pos = HASH"
      | (rec) "fbuffer pos \<noteq> SP" "fbuffer pos \<noteq> NL" "fbuffer pos \<noteq> HASH"
      by blast
    then show ?thesis
    proof cases
      case sp
      obtain p t where s: "skip_spaces fbuffer read_res (pos + 1) (BufRead pos # tr) = (p, t)"
        by (cases "skip_spaces fbuffer read_res (pos + 1) (BufRead pos # tr)")
      have eq: "parse_next_kv fbuffer read_res pos line key val tr =
                parse_next_kv fbuffer read_res p line key val t"
        using in_buf sp s by (subst parse_next_kv.simps) simp
      have "p < new_pos (parse_next_kv fbuffer read_res p line key val t)"
        using "1.IH"(1) [OF in_buf sp s [symmetric]] "1.prems" eq by simp
      with skip_spaces_ge [OF s] eq show ?thesis by simp
    next
      case nl
      obtain p l t where
        s: "skip_newlines fbuffer read_res (pos + 1) line (BufRead pos # tr) = (p, l, t)"
        by (cases "skip_newlines fbuffer read_res (pos + 1) line (BufRead pos # tr)")
      have eq: "parse_next_kv fbuffer read_res pos line key val tr =
                parse_next_kv fbuffer read_res p l key val t"
        using in_buf nl s by (subst parse_next_kv.simps) simp
      have "p < new_pos (parse_next_kv fbuffer read_res p l key val t)"
        using "1.IH"(2) [OF in_buf nl s [symmetric] refl] "1.prems" eq by simp
      with skip_newlines_ge [OF s] eq show ?thesis by simp
    next
      case hash
      obtain p t where s: "skip_comment fbuffer read_res (pos + 1) (BufRead pos # tr) = (p, t)"
        by (cases "skip_comment fbuffer read_res (pos + 1) (BufRead pos # tr)")
      let ?p = "if p < read_res then p + 1 else p"
      have eq: "parse_next_kv fbuffer read_res pos line key val tr =
                parse_next_kv fbuffer read_res ?p (line + 1) key val t"
        using in_buf hash s by (subst parse_next_kv.simps) simp
      have "?p < new_pos (parse_next_kv fbuffer read_res ?p (line + 1) key val t)"
        using "1.IH"(3) [OF in_buf hash s [symmetric]] "1.prems" eq by simp
      moreover have "pos < ?p" using skip_comment_ge [OF s] by simp
      ultimately show ?thesis using eq by simp
    next
      case rec
      have eq: "parse_next_kv fbuffer read_res pos line key val tr =
                parse_record fbuffer read_res pos line val (BufRead pos # tr)"
        using in_buf rec by (subst parse_next_kv.simps) simp
      with "1.prems" parse_record_advances show ?thesis by simp
    qed
  qed
qed

lemma parse_next_kv_in_buffer:
  "0 < ret (parse_next_kv fbuffer read_res pos line key val tr) \<Longrightarrow> pos < read_res"
  by (subst (asm) parse_next_kv.simps) (simp split: if_splits)

section \<open>Library functions the module calls\<close>

text \<open>
  The C library and BlueZ functions below are not part of the repository. They are modelled
  after their documented behaviour on the NUL-terminated strings the module passes them.
  A scratch array holding the bytes \<open>s\<close> followed by NUL reads as the C string
  \<open>c_str s\<close>.
\<close>

definition c_str :: "string \<Rightarrow> string" where
  "c_str s = takeWhile (\<lambda>c. c \<noteq> NUL) s"

text \<open>\<^verbatim>\<open>strncmp (a, b, n) == 0\<close> and \<^verbatim>\<open>strcmp (a, b) == 0\<close>.\<close>

definition strncmp_eq0 :: "string \<Rightarrow> string \<Rightarrow> nat \<Rightarrow> bool" where
  "strncmp_eq0 a b n = (take n (c_str a) = take n (c_str b))"

definition strcmp_eq0 :: "string \<Rightarrow> string \<Rightarrow> bool" where
  "strcmp_eq0 a b = (c_str a = c_str b)"

definition isspace :: "char \<Rightarrow> bool" where
  "isspace c = (c = SP \<or> (9 \<le> (of_char c :: nat) \<and> (of_char c :: nat) \<le> 13))"

definition isdigit :: "char \<Rightarrow> bool" where
  "isdigit c = (48 \<le> (of_char c :: nat) \<and> (of_char c :: nat) \<le> 57)"

definition digits_value :: "string \<Rightarrow> int" where
  "digits_value ds = foldl (\<lambda>a c. a * 10 + (of_char c - 48)) 0 ds"

text \<open>
  \<open>atoi\<close> is \<open>(int) strtol (s, NULL, 10)\<close>: leading white space, an optional sign,
  decimal digits; \<open>strtol\<close> saturates at the bounds of a 64-bit \<open>long\<close> and the cast
  keeps the low 32 bits. \<open>abs\<close> and unary minus work on 32-bit \<open>int\<close> and wrap.
\<close>

definition strtol10 :: "string \<Rightarrow> int" where
  "strtol10 s =
     (let s1 = dropWhile isspace (c_str s);
          neg = (s1 \<noteq> [] \<and> hd s1 = CHR ''-'');
          s2 = (if s1 \<noteq> [] \<and> (hd s1 = CHR ''-'' \<or> hd s1 = CHR ''+'') then tl s1 else s1);
          v = digits_value (takeWhile isdigit s2)
      in if neg then max (- (2 ^ 63)) (- v) else min (2 ^ 63 - 1) v)"

definition atoi :: "string \<Rightarrow> 32 word" where
  "atoi s = word_of_int (strtol10 s)"

definition c_abs :: "32 word \<Rightarrow> 32 word" where
  "c_abs x = (if sint x < 0 then - x else x)"

text \<open>
  \<^verbatim>\<open>bdaddr_t\<close> is \<^verbatim>\<open>struct { uint8_t b[6]; }\<close>. \<open>bacmp\<close> is \<open>memcmp\<close> on it; the
  module only tests \<^verbatim>\<open>bacmp (a, b) == 0\<close>, which is what \<open>bacmp\<close> stands for here.
\<close>

datatype bdaddr = BDADDR (b0: "8 word") (b1: "8 word") (b2: "8 word")
                         (b3: "8 word") (b4: "8 word") (b5: "8 word")

definition bacmp :: "bdaddr \<Rightarrow> bdaddr \<Rightarrow> bool" where
  "bacmp a b = (a = b)"

definition isxdigit :: "char \<Rightarrow> bool" where
  "isxdigit c = (isdigit c \<or> (65 \<le> (of_char c :: nat) \<and> (of_char c :: nat) \<le> 70)
                 \<or> (97 \<le> (of_char c :: nat) \<and> (of_char c :: nat) \<le> 102))"

definition xdigit_value :: "char \<Rightarrow> nat" where
  "xdigit_value c =
     (if isdigit c then of_char c - 48
      else if of_char c \<le> (70 :: nat) then of_char c - 55 else of_char c - 87)"

text \<open>
  BlueZ's \<open>bachk\<close> accepts exactly the 17-byte strings \<open>XX:XX:XX:XX:XX:XX\<close> of
  hexadecimal digits; \<open>str2ba\<close> zeroes the address and returns \<open>- 1\<close> on any other
  string, and otherwise stores the six bytes in reverse order.
\<close>

fun bachk_loop :: "string \<Rightarrow> bool" where
  "bachk_loop [] = True"
| "bachk_loop [a] = False"
| "bachk_loop [a, b] = (isxdigit a \<and> isxdigit b)"
| "bachk_loop (a # b # c # rest) = (isxdigit a \<and> isxdigit b \<and> c = CHR '':'' \<and> bachk_loop rest)"

definition bachk :: "string \<Rightarrow> int" where
  "bachk s = (if length s = 17 \<and> bachk_loop s then 0 else - 1)"

definition hex_pair :: "string \<Rightarrow> nat \<Rightarrow> 8 word" where
  "hex_pair s i = of_nat (16 * xdigit_value (s ! i) + xdigit_value (s ! (i + 1)))"

definition str2ba :: "string \<Rightarrow> int \<times> bdaddr" where
  "str2ba s =
     (if bachk (c_str s) < 0 then (- 1, BDADDR 0 0 0 0 0 0)
      else (0, BDADDR (hex_pair s 15) (hex_pair s 12) (hex_pair s 9)
                      (hex_pair s 6) (hex_pair s 3) (hex_pair s 0)))"

definition hex_digit :: "nat \<Rightarrow> char" where
  "hex_digit n = (if n < 10 then char_of (48 + n) else char_of (55 + n))"

definition byte_hex :: "8 word \<Rightarrow> string" where
  "byte_hex w = [hex_digit (unat w div 16), hex_digit (unat w mod 16)]"

text \<open>\<open>ba2str\<close> prints \<^verbatim>\<open>"%2.2X:%2.2X:%2.2X:%2.2X:%2.2X:%2.2X"\<close> of \<open>b[5] .. b[0]\<close>.\<close>

definition ba2str :: "bdaddr \<Rightarrow> string" where
  "ba2str a = byte_hex (b5 a) @ '':'' @ byte_hex (b4 a) @ '':'' @ byte_hex (b3 a) @ '':'' @
              byte_hex (b2 a) @ '':'' @ byte_hex (b1 a) @ '':'' @ byte_hex (b0 a)"

section \<open>The outside world\<close>

text \<open>
  Every system, BlueZ and PAM call is an entry of the trace of calls made so far, in the
  order they were made. What a call returns is given by the world and may depend on that
  whole history, so that two reads of the same signal may differ. \<open>pam_syslog\<close> and
  \<open>free\<close> are left out: nothing reads what they do.
\<close>

record hci_conn_info =
  conn_handle :: "16 word"
  conn_bdaddr :: bdaddr

datatype call =
    Getuid
  | Open string
  | Malloc nat
  | Read int nat
  | Close int
  | HciGetRoute
  | HciDevba int
  | HciOpenDev int
  | IoctlGetConnList int int nat
  | HciReadRssi int "16 word" int
  | HciSendReq int "16 word" int
  | HciReadRemoteName int bdaddr int
  | PamGetAuthtok

record world =
  w_getuid :: "call list \<Rightarrow> nat"
  w_open :: "call list \<Rightarrow> string \<Rightarrow> int"
  w_malloc :: "call list \<Rightarrow> nat \<Rightarrow> bool"
  w_read :: "call list \<Rightarrow> int \<Rightarrow> nat \<Rightarrow> int \<times> (nat \<Rightarrow> char)"
  w_hci_get_route :: "call list \<Rightarrow> int"
  w_hci_devba :: "call list \<Rightarrow> int \<Rightarrow> int \<times> bdaddr"
  w_hci_open_dev :: "call list \<Rightarrow> int \<Rightarrow> int"
  w_get_conn_list :: "call list \<Rightarrow> int \<Rightarrow> int \<Rightarrow> int \<times> hci_conn_info list"
  w_hci_read_rssi :: "call list \<Rightarrow> int \<Rightarrow> 16 word \<Rightarrow> int \<Rightarrow> int \<times> 8 word"
  w_hci_send_req :: "call list \<Rightarrow> int \<Rightarrow> 16 word \<Rightarrow> int \<Rightarrow> int \<times> 8 word \<times> 8 word"
  w_hci_read_remote_name :: "call list \<Rightarrow> int \<Rightarrow> bdaddr \<Rightarrow> int \<Rightarrow> int"
  w_pam_get_authtok :: "call list \<Rightarrow> int \<times> string option"

text \<open>
  Two classes of calls. The radio calls are those that reach the Bluetooth stack;
  \<open>check_bluetooth_device\<close> begins with one. The fallback calls are the first call of
  \<open>is_device_trusted\<close> and the first call of \<open>check_paired_device_proximity\<close>, so a
  trace without them is one in which \<open>check_paired_device\<close> did neither.
\<close>

fun is_radio_call :: "call \<Rightarrow> bool" where
  "is_radio_call HciGetRoute = True"
| "is_radio_call (HciDevba dev_id) = True"
| "is_radio_call (HciOpenDev dev_id) = True"
| "is_radio_call (IoctlGetConnList sock dev_id n) = True"
| "is_radio_call (HciReadRssi sock handle timeout) = True"
| "is_radio_call (HciSendReq sock handle timeout) = True"
| "is_radio_call (HciReadRemoteName sock addr timeout) = True"
| "is_radio_call c = False"

fun is_fallback_call :: "call \<Rightarrow> bool" where
  "is_fallback_call Getuid = True"
| "is_fallback_call (HciReadRemoteName sock addr timeout) = True"
| "is_fallback_call c = False"

definition CONFIG_FILE :: string where
  "CONFIG_FILE = ''/etc/pam_bluetooth.conf''"

definition SYSCALL_MAX_BYTES_READ :: nat where
  "SYSCALL_MAX_BYTES_READ = 1024"

definition MAX_DEVICES_LOOKDUP :: nat where
  "MAX_DEVICES_LOOKDUP = 20"

text \<open>\<^verbatim>\<open>static void close_fd (int *fd) { if (*fd >= 0) close (*fd); }\<close>\<close>

definition close_fd :: "int \<Rightarrow> call list \<Rightarrow> call list" where
  "close_fd fd tr = (if fd \<ge> 0 then tr @ [Close fd] else tr)"

section \<open>The configuration loader\<close>

record bt_config =
  device_addr :: bdaddr
  request_update :: int
  check_trusted :: int
  min_strength :: int

text \<open>
  The body of the loop of \<open>read_config\<close>, lines 174 to 201, on the record just parsed.
  The state is the configuration with the flags \<open>found_device\<close> and \<open>found_strength\<close>.
  \<open>strncpy (device_str, value, 17)\<close> fills an 18-byte array whose last byte stays 0.
  \<^verbatim>\<open>int8_t strength = -abs (atoi (value));\<close> keeps the low 8 bits.
\<close>

definition read_config_body ::
  "string \<Rightarrow> string \<Rightarrow> bt_config \<times> int \<times> int \<Rightarrow> bt_config \<times> int \<times> int" where
  "read_config_body key val st =
     (case st of (config, found_device, found_strength) \<Rightarrow>
      if strncmp_eq0 key ''device'' 6 then
        (let device_str = take 17 (c_str val) in
         case str2ba device_str of (res, addr) \<Rightarrow>
           if res \<noteq> 0 then (config\<lparr>device_addr := addr\<rparr>, found_device, found_strength)
           else (config\<lparr>device_addr := addr\<rparr>, 1, found_strength))
      else if strncmp_eq0 key ''request_update'' 14 then
        (config\<lparr>request_update := sint (c_abs (atoi val))\<rparr>, found_device, found_strength)
      else if strncmp_eq0 key ''check_trusted'' 13 then
        (config\<lparr>check_trusted := sint (c_abs (atoi val))\<rparr>, found_device, found_strength)
      else if strncmp_eq0 key ''min_strength'' 12 then
        (let strength = (ucast (- c_abs (atoi val)) :: 8 word) in
         if strength = 0 then (config, found_device, found_strength)
         else (config\<lparr>min_strength := sint strength\<rparr>, found_device, 1))
      else (config, found_device, found_strength))"

text \<open>
  \<^verbatim>\<open>while ((parse_result = parse_next_kv (...)) > 0) { ... }\<close>: the loop returns the state
  together with the last \<open>parse_result\<close>.
\<close>

function read_config_loop ::
  "(nat \<Rightarrow> char) \<Rightarrow> nat \<Rightarrow> nat \<Rightarrow> nat \<Rightarrow> string \<Rightarrow> string \<Rightarrow> bt_config \<times> int \<times> int
   \<Rightarrow> (bt_config \<times> int \<times> int) \<times> int" where
  "read_config_loop fbuffer read_res pos line key val st =
     (let r = parse_next_kv fbuffer read_res pos line key val [] in
      if ret r > 0
      then read_config_loop fbuffer read_res (new_pos r) (new_line r) (out_key r) (out_value r)
             (read_config_body (out_key r) (out_value r) st)
      else (st, ret r))"
  by pat_completeness auto
termination
proof (relation "measure (\<lambda>(fbuffer, read_res, pos, line, key, val, st). read_res - pos)",
       goal_cases)
  case 1
  show ?case by simp
next
  case (2 fbuffer read_res pos line key val st r)
  then show ?case
    using parse_next_kv_advances [of fbuffer read_res pos line key val "[]"]
          parse_next_kv_in_buffer [of fbuffer read_res pos line key val "[]"]
    by simp
qed

declare read_config_loop.simps [simp del]

text \<open>
  \<open>read_config\<close>. \<open>config0\<close> is what the caller's uninitialised \<open>bt_config_t\<close> holds.
  The scratch arrays \<open>key\<close> and \<open>value\<close> are uninitialised too; they are read only
  after \<open>parse_next_kv\<close> has filled them, so they start empty here.
\<close>

definition read_config :: "world \<Rightarrow> call list \<Rightarrow> bt_config \<Rightarrow> int \<times> bt_config \<times> call list" where
  "read_config W tr config0 =
     (let file = w_open W tr CONFIG_FILE; tr1 = tr @ [Open CONFIG_FILE] in
      if file = - 1 then (- 1, config0, close_fd file tr1)
      else
        let fbuffer_ok = w_malloc W tr1 SYSCALL_MAX_BYTES_READ;
            tr2 = tr1 @ [Malloc SYSCALL_MAX_BYTES_READ] in
        if \<not> fbuffer_ok then (- 1, config0, close_fd file tr2)
        else
          case w_read W tr2 file SYSCALL_MAX_BYTES_READ of (read_res, fbuffer) \<Rightarrow>
          let tr3 = tr2 @ [Read file SYSCALL_MAX_BYTES_READ] in
          if read_res = - 1 then (- 1, config0, close_fd file tr3)
          else if read_res = 0 then (- 1, config0, close_fd file tr3)
          else
            let config1 = config0\<lparr>request_update := 0, check_trusted := 0\<rparr> in
            case read_config_loop fbuffer (nat read_res) 0 0 [] [] (config1, 0, 0) of
              ((config, found_device, found_strength), parse_result) \<Rightarrow>
                if found_device = 0 then (- 1, config, close_fd file tr3)
                else if found_strength = 0 then (- 1, config, close_fd file tr3)
                else (0, config, close_fd file tr3))"

section \<open>The trust resolver\<close>

text \<open>
  Modelled from the spec: the string builder of \<open>lib/z3_string.h\<close> (\<open>z3_str\<close>,
  \<open>z3_pushl\<close>, \<open>z3_pushc\<close>) is not among the sources. The spec has the path as the
  fixed root, the adapter address, \<open>/\<close>, the device address and \<open>/info\<close>;
  \<open>z3_pushl (&s, p, n)\<close> appends \<open>n\<close> bytes of \<open>p\<close>.
\<close>

definition info_path :: "string \<Rightarrow> string \<Rightarrow> string" where
  "info_path device_mac gadget_mac =
     ''/var/lib/bluetooth/'' @ take 17 device_mac @ ''/'' @ take 17 gadget_mac @ ''/info''"

text \<open>
  The loop of \<open>is_device_trusted\<close>, lines 258 to 276, with the two returns after it:
  it returns at the first record whose key matches.
\<close>

function is_device_trusted_loop ::
  "(nat \<Rightarrow> char) \<Rightarrow> nat \<Rightarrow> nat \<Rightarrow> nat \<Rightarrow> string \<Rightarrow> string \<Rightarrow> int" where
  "is_device_trusted_loop fbuffer read_res pos line key val =
     (let r = parse_next_kv fbuffer read_res pos line key val [] in
      if ret r > 0 then
        (if strncmp_eq0 (out_key r) ''Trusted'' 7 then
           (if strncmp_eq0 (out_value r) ''true'' 4 then 1 else 0)
         else is_device_trusted_loop fbuffer read_res (new_pos r) (new_line r)
                (out_key r) (out_value r))
      else if ret r < 0 then - 1
      else 0)"
  by pat_completeness auto
termination
proof (relation "measure (\<lambda>(fbuffer, read_res, pos, line, key, val). read_res - pos)",
       goal_cases)
  case 1
  show ?case by simp
next
  case (2 fbuffer read_res pos line key val r)
  then show ?case
    using parse_next_kv_advances [of fbuffer read_res pos line key val "[]"]
          parse_next_kv_in_buffer [of fbuffer read_res pos line key val "[]"]
    by simp
qed

declare is_device_trusted_loop.simps [simp del]

definition is_device_trusted :: "world \<Rightarrow> call list \<Rightarrow> string \<Rightarrow> string \<Rightarrow> int \<times> call list" where
  "is_device_trusted W tr device_mac gadget_mac =
     (let uid = w_getuid W tr; tr1 = tr @ [Getuid] in
      if uid \<noteq> 1 then (0, tr1)
      else
        let infof_path = info_path device_mac gadget_mac;
            file = w_open W tr1 infof_path;
            tr2 = tr1 @ [Open infof_path] in
        if file = - 1 then (0, close_fd file tr2)
        else
          let fbuffer_ok = w_malloc W tr2 SYSCALL_MAX_BYTES_READ;
              tr3 = tr2 @ [Malloc SYSCALL_MAX_BYTES_READ] in
          if \<not> fbuffer_ok then (- 1, close_fd file tr3)
          else
            case w_read W tr3 file SYSCALL_MAX_BYTES_READ of (read_res, fbuffer) \<Rightarrow>
            let tr4 = tr3 @ [Read file SYSCALL_MAX_BYTES_READ] in
            if read_res \<le> 0 then (0, close_fd file tr4)
            else (is_device_trusted_loop fbuffer (nat read_res) 0 0 [] [], close_fd file tr4))"







section \<open>Signal acquisition\<close>

text \<open>\<open>int8_t\<close> values are 8-bit words read with \<open>sint\<close>; \<^verbatim>\<open>return -1;\<close> is \<open>0xFF\<close>.\<close>

definition dev_get_rssi :: "world \<Rightarrow> call list \<Rightarrow> int \<Rightarrow> 16 word \<Rightarrow> 8 word \<times> call list" where
  "dev_get_rssi W tr dev_id handle =
     (let sock = w_hci_open_dev W tr dev_id; tr1 = tr @ [HciOpenDev dev_id] in
      if sock < 0 then (- 1, close_fd sock tr1)
      else
        case w_hci_read_rssi W tr1 sock handle 1000 of (err, rssi) \<Rightarrow>
        let tr2 = tr1 @ [HciReadRssi sock handle 1000] in
        if err < 0 then (- 1, close_fd sock tr2)
        else (rssi, close_fd sock tr2))"

text \<open>
  \<open>get_fresh_rssi\<close> sends \<open>OCF_READ_RSSI\<close> for the handle; the world returns what
  \<open>hci_send_req\<close> returns and the \<open>status\<close> and \<open>rssi\<close> of the reply.
\<close>

definition get_fresh_rssi :: "world \<Rightarrow> call list \<Rightarrow> int \<Rightarrow> 16 word \<Rightarrow> 8 word \<times> call list" where
  "get_fresh_rssi W tr hci_sock handle =
     (case w_hci_send_req W tr hci_sock handle 1000 of (res, status, rssi) \<Rightarrow>
      let tr1 = tr @ [HciSendReq hci_sock handle 1000] in
      if res < 0 then (0, tr1)
      else if status \<noteq> 0 then (0, tr1)
      else (rssi, tr1))"

definition check_paired_device_proximity ::
  "world \<Rightarrow> call list \<Rightarrow> int \<Rightarrow> bdaddr \<Rightarrow> 8 word \<Rightarrow> bool \<times> call list" where
  "check_paired_device_proximity W tr hci_sock target_addr min_str =
     (let name_res = w_hci_read_remote_name W tr hci_sock target_addr 500;
          tr1 = tr @ [HciReadRemoteName hci_sock target_addr 500] in
      if name_res < 0 then (False, tr1)
      else
        case w_hci_read_rssi W tr1 hci_sock 0 100 of (err, rssi) \<Rightarrow>
        let tr2 = tr1 @ [HciReadRssi hci_sock 0 100] in
        if err = 0 then (sint rssi \<ge> sint min_str, tr2)
        else (True, tr2))"

section \<open>The proximity decision engine\<close>

definition check_paired_device ::
  "world \<Rightarrow> call list \<Rightarrow> bt_config \<Rightarrow> int \<Rightarrow> string \<Rightarrow> bool \<times> call list" where
  "check_paired_device W tr config hci_sock bt_adapter_addrs =
     (if check_trusted config \<noteq> 0 then
        (let addr_str = ba2str (device_addr config) in
         case is_device_trusted W tr bt_adapter_addrs addr_str of (trust_result, tr1) \<Rightarrow>
           if trust_result < 0 then (False, tr1)
           else if trust_result = 0 then (False, tr1)
           else check_paired_device_proximity W tr1 hci_sock (device_addr config)
                  (word_of_int (min_strength config)))
      else check_paired_device_proximity W tr hci_sock (device_addr config)
             (word_of_int (min_strength config)))"

text \<open>
  Lines 419 to 424: the signal of the matching connection, with the retry through
  \<open>dev_get_rssi\<close> when the first value is 0.
\<close>

definition connected_rssi ::
  "world \<Rightarrow> call list \<Rightarrow> bt_config \<Rightarrow> int \<Rightarrow> int \<Rightarrow> 16 word \<Rightarrow> 8 word \<times> call list" where
  "connected_rssi W tr config dev_id hci_sock handle =
     (case (if request_update config \<noteq> 0 then get_fresh_rssi W tr hci_sock handle
            else dev_get_rssi W tr dev_id handle) of (rssi, tr1) \<Rightarrow>
      if rssi \<noteq> 0 then (rssi, tr1) else dev_get_rssi W tr1 dev_id handle)"

text \<open>
  The \<^verbatim>\<open>for\<close> loop of \<open>check_connected_device\<close> over the entries the ioctl filled in,
  and the \<^verbatim>\<open>return 0\<close> after it.
\<close>

fun check_connected_loop ::
  "world \<Rightarrow> call list \<Rightarrow> bt_config \<Rightarrow> int \<Rightarrow> int \<Rightarrow> hci_conn_info list \<Rightarrow> int \<times> call list" where
  "check_connected_loop W tr config dev_id hci_sock [] = (0, tr)"
| "check_connected_loop W tr config dev_id hci_sock (ci # rest) =
     (if bacmp (conn_bdaddr ci) (device_addr config) then
        (case connected_rssi W tr config dev_id hci_sock (conn_handle ci) of (rssi, tr1) \<Rightarrow>
           if rssi = 0 then (0, tr1)
           else if sint rssi \<ge> min_strength config then (1, tr1)
           else (- 1, tr1))
      else check_connected_loop W tr config dev_id hci_sock rest)"

text \<open>
  The request carries \<open>conn_num = MAX_DEVICES_LOOKDUP\<close>, so the kernel fills in at most
  that many entries of the adapter's connections and sets \<open>conn_num\<close> to their number.
  The allocation is 4 bytes of header and 16 bytes for each entry.
\<close>

definition check_connected_device ::
  "world \<Rightarrow> call list \<Rightarrow> bt_config \<Rightarrow> int \<Rightarrow> int \<Rightarrow> int \<times> call list" where
  "check_connected_device W tr config dev_id hci_sock =
     (let conn_list_ok = w_malloc W tr (4 + MAX_DEVICES_LOOKDUP * 16);
          tr1 = tr @ [Malloc (4 + MAX_DEVICES_LOOKDUP * 16)] in
      if \<not> conn_list_ok then (- 1, tr1)
      else
        case w_get_conn_list W tr1 hci_sock dev_id of (get_con_res, conns) \<Rightarrow>
        let tr2 = tr1 @ [IoctlGetConnList hci_sock dev_id MAX_DEVICES_LOOKDUP];
            conn_info = take MAX_DEVICES_LOOKDUP conns in
        if get_con_res < 0 then (0, tr2)
        else if length conn_info = 0 then (0, tr2)
        else check_connected_loop W tr2 config dev_id hci_sock conn_info)"

definition check_bluetooth_device :: "world \<Rightarrow> call list \<Rightarrow> bt_config \<Rightarrow> bool \<times> call list" where
  "check_bluetooth_device W tr config =
     (let dev_id = w_hci_get_route W tr; tr1 = tr @ [HciGetRoute] in
      if dev_id < 0 then (False, tr1)
      else
        case w_hci_devba W tr1 dev_id of (devba_res, local_addr) \<Rightarrow>
        let tr2 = tr1 @ [HciDevba dev_id] in
        if devba_res < 0 then (False, tr2)
        else
          let bt_adapter_addrs = ba2str local_addr;
              did = int (length bt_adapter_addrs) in
          if did < 0 then (False, tr2)
          else
            let hci_sock = w_hci_open_dev W tr2 dev_id; tr3 = tr2 @ [HciOpenDev dev_id] in
            if hci_sock < 0 then (False, close_fd hci_sock tr3)
            else
              case check_connected_device W tr3 config dev_id hci_sock of (conn_is, tr4) \<Rightarrow>
              if conn_is = 0 then
                (case check_paired_device W tr4 config hci_sock bt_adapter_addrs of
                   (paired, tr5) \<Rightarrow> (paired, close_fd hci_sock tr5))
              else (conn_is = 1, close_fd hci_sock tr4))"

section \<open>The authentication verdict\<close>

definition PAM_SUCCESS :: int where
  "PAM_SUCCESS = 0"

definition PAM_AUTH_ERR :: int where
  "PAM_AUTH_ERR = 7"

text \<open>
  \<open>pam_sm_authenticate\<close>; \<open>argv\<close> are the module arguments. \<open>pam_get_authtok\<close> returns
  its status and the password pointer, \<open>None\<close> for \<open>NULL\<close>.
\<close>

definition pam_sm_authenticate ::
  "world \<Rightarrow> call list \<Rightarrow> string list \<Rightarrow> bt_config \<Rightarrow> int \<times> call list" where
  "pam_sm_authenticate W tr argv config0 =
     (let allow_with_password =
            (if list_ex (\<lambda>a. strcmp_eq0 a ''allow_with_password'') argv then 1 else 0 :: int) in
      case read_config W tr config0 of (rc, config, tr1) \<Rightarrow>
      if rc \<noteq> 0 then (PAM_AUTH_ERR, tr1)
      else
        case w_pam_get_authtok W tr1 of (retval, password) \<Rightarrow>
        let tr2 = tr1 @ [PamGetAuthtok] in
        if retval \<noteq> PAM_SUCCESS then (retval, tr2)
        else
          let has_password =
                (case password of None \<Rightarrow> False | Some pw \<Rightarrow> pw \<noteq> [] \<and> hd pw \<noteq> NUL) in
          if has_password \<and> allow_with_password = 0 then (PAM_AUTH_ERR, tr2)
          else
            case check_bluetooth_device W tr2 config of (ok, tr3) \<Rightarrow>
            if ok then (PAM_SUCCESS, tr3) else (PAM_AUTH_ERR, tr3))"

section \<open>Concrete inputs\<close>

text \<open>
  A buffer holding the bytes of a string, with zero bytes in the memory after them, and a
  world in which every call succeeds: the process runs as \<open>uid\<close>, every file holds
  \<open>content\<close>, the adapter reports the connections \<open>conns\<close>, every cached signal read
  returns \<open>rssi\<close>, and no paired device answers a name request.
\<close>

definition buffer_of :: "string \<Rightarrow> nat \<Rightarrow> char" where
  "buffer_of s i = (if i < length s then s ! i else NUL)"

definition sample_world :: "nat \<Rightarrow> string \<Rightarrow> hci_conn_info list \<Rightarrow> int \<times> 8 word \<Rightarrow> world" where
  "sample_world uid content conns rssi =
     \<lparr>w_getuid = (\<lambda>h. uid),
      w_open = (\<lambda>h path. 3),
      w_malloc = (\<lambda>h n. True),
      w_read = (\<lambda>h fd n. (int (length content), buffer_of content)),
      w_hci_get_route = (\<lambda>h. 0),
      w_hci_devba = (\<lambda>h dev_id. (0, BDADDR 1 2 3 4 5 6)),
      w_hci_open_dev = (\<lambda>h dev_id. 4),
      w_get_conn_list = (\<lambda>h sock dev_id. (0, conns)),
      w_hci_read_rssi = (\<lambda>h sock handle timeout. rssi),
      w_hci_send_req = (\<lambda>h sock handle timeout. (- 1, 0, 0)),
      w_hci_read_remote_name = (\<lambda>h sock addr timeout. - 1),
      w_pam_get_authtok = (\<lambda>h. (0, None))\<rparr>"

definition target_addr :: bdaddr where
  "target_addr = BDADDR 0xFF 0xEE 0xDD 0xCC 0xBB 0xAA"

definition target_conn :: hci_conn_info where
  "target_conn = \<lparr>conn_handle = 1, conn_bdaddr = target_addr\<rparr>"

definition cfg0 :: bt_config where
  "cfg0 = \<lparr>device_addr = BDADDR 0 0 0 0 0 0, request_update = 0, check_trusted = 0,
           min_strength = 0\<rparr>"

definition cfg70 :: bt_config where
  "cfg70 = \<lparr>device_addr = target_addr, request_update = 0, check_trusted = 0,
            min_strength = - 70\<rparr>"

definition conf_with_garbage :: string where
  "conf_with_garbage =
     ''device=AA:BB:CC:DD:EE:FF'' @ [NL] @ ''min_strength=-70'' @ [NL] @ ''garbage'' @ [NL]"

definition conf_strength_200 :: string where
  "conf_strength_200 = ''device=AA:BB:CC:DD:EE:FF'' @ [NL] @ ''min_strength=200'' @ [NL]"

definition long_key_line :: string where
  "long_key_line = replicate 257 (CHR ''k'') @ ''=v'' @ [NL]"

definition long_value_line :: string where
  "long_value_line = ''k='' @ replicate 256 (CHR ''v'') @ [NL]"

definition password_world :: world where
  "password_world =
     (sample_world 0 conf_with_garbage [target_conn] (0, - 60))
       \<lparr>w_pam_get_authtok := (\<lambda>h. (PAM_SUCCESS, Some ''secret''))\<rparr>"

definition weak_world :: world where
  "weak_world = sample_world 0 [] [target_conn] (0, - 80)"

definition second_link :: hci_conn_info where
  "second_link = \<lparr>conn_handle = 2, conn_bdaddr = target_addr\<rparr>"

definition two_links_world :: world where
  "two_links_world =
     (sample_world 0 [] [target_conn, second_link] (0, 0))
       \<lparr>w_hci_read_rssi := (\<lambda>h sock handle timeout.
            if handle = 1 then (0, 0) else if handle = 2 then (0, - 80) else (- 1, 0)),
        w_hci_read_remote_name := (\<lambda>h sock addr timeout. 0)\<rparr>"

definition no_list_world :: world where
  "no_list_world =
     (sample_world 0 [] [target_conn] (0, - 80))
       \<lparr>w_get_conn_list := (\<lambda>h sock dev_id. (- 1, [])),
        w_hci_read_remote_name := (\<lambda>h sock addr timeout. 0)\<rparr>"



section \<open>Auxiliary facts\<close>

lemma scan_key_run:
  "pos + k \<le> read_res \<Longrightarrow> length key + k \<le> MAX_ITEM_LEN \<Longrightarrow>
   \<forall>i<k. fbuffer (pos + i) \<noteq> EQ \<and> fbuffer (pos + i) \<noteq> NL \<and> fbuffer (pos + i) \<noteq> SP \<Longrightarrow>
   \<exists>t. scan_key fbuffer read_res pos key tr =
       scan_key fbuffer read_res (pos + k) (key @ map fbuffer [pos ..< pos + k]) t"
proof (induction k arbitrary: pos key tr)
  case 0
  then show ?case by auto
next
  case (Suc k)
  from Suc.prems have here: "pos < read_res" "length key < MAX_ITEM_LEN"
    "fbuffer pos \<noteq> EQ" "fbuffer pos \<noteq> NL" "fbuffer pos \<noteq> SP"
    by (auto dest: spec [of _ 0])
  have step: "scan_key fbuffer read_res pos key tr =
        scan_key fbuffer read_res (pos + 1) (key @ [fbuffer pos])
          (KeyWrite (length key) # BufRead pos # tr)"
    using here by (subst scan_key.simps) simp
  have rest: "\<forall>i<k. fbuffer (pos + 1 + i) \<noteq> EQ \<and> fbuffer (pos + 1 + i) \<noteq> NL \<and>
                    fbuffer (pos + 1 + i) \<noteq> SP"
  proof (intro allI impI)
    fix i assume "i < k"
    then have "Suc i < Suc k" by simp
    with Suc.prems(3) have "fbuffer (pos + Suc i) \<noteq> EQ \<and> fbuffer (pos + Suc i) \<noteq> NL \<and>
                    fbuffer (pos + Suc i) \<noteq> SP" by blast
    then show "fbuffer (pos + 1 + i) \<noteq> EQ \<and> fbuffer (pos + 1 + i) \<noteq> NL \<and>
                    fbuffer (pos + 1 + i) \<noteq> SP" by simp
  qed
  from Suc.IH [of "pos + 1" "key @ [fbuffer pos]", OF _ _ rest] Suc.prems(1,2)
  obtain t where "scan_key fbuffer read_res (pos + 1) (key @ [fbuffer pos])
          (KeyWrite (length key) # BufRead pos # tr) =
       scan_key fbuffer read_res (pos + 1 + k)
         ((key @ [fbuffer pos]) @ map fbuffer [pos + 1 ..< pos + 1 + k]) t"
    by fastforce
  moreover have "map fbuffer [pos ..< pos + Suc k] = fbuffer pos # map fbuffer [pos + 1 ..< pos + 1 + k]"
    by (subst upt_rec) simp
  ultimately show ?case using step by auto
qed

lemma long_key_result:
  assumes len: "pos + 256 < read_res"
      and bytes: "\<forall>i\<le>256. fbuffer (pos + i) \<noteq> EQ \<and> fbuffer (pos + i) \<noteq> NL \<and>
                          fbuffer (pos + i) \<noteq> SP"
      and first: "fbuffer pos \<noteq> HASH"
  shows "\<exists>t. parse_next_kv fbuffer read_res pos line key val tr =
           \<lparr>ret = - 1, new_pos = pos + 256, new_line = line,
            out_key = map fbuffer [pos ..< pos + 256], out_value = val,
            log = BufRead (pos + 256) # BufRead (pos + 256) # KeyWrite 256 # t\<rparr>"
proof -
  from bytes have b0: "fbuffer pos \<noteq> EQ" "fbuffer pos \<noteq> NL" "fbuffer pos \<noteq> SP"
    by (auto dest: spec [of _ 0])
  from bytes have b256: "fbuffer (pos + 256) \<noteq> EQ" "fbuffer (pos + 256) \<noteq> SP"
    by (auto dest: spec [of _ 256])
  have rec: "parse_next_kv fbuffer read_res pos line key val tr =
             parse_record fbuffer read_res pos line val (BufRead pos # tr)"
    using len b0 first by (subst parse_next_kv.simps) simp
  obtain t where run: "scan_key fbuffer read_res pos [] (BufRead pos # tr) =
       scan_key fbuffer read_res (pos + 256) ([] @ map fbuffer [pos ..< pos + 256]) t"
    using scan_key_run [of pos 256 read_res "[]" fbuffer "BufRead pos # tr"] len bytes
    by (auto simp: MAX_ITEM_LEN_def)
  have stop: "scan_key fbuffer read_res (pos + 256) (map fbuffer [pos ..< pos + 256]) t =
        (pos + 256, map fbuffer [pos ..< pos + 256], t)"
    by (subst scan_key.simps) (simp add: MAX_ITEM_LEN_def)
  have key: "scan_key fbuffer read_res pos [] (BufRead pos # tr) =
        (pos + 256, map fbuffer [pos ..< pos + 256], t)"
    using run stop by simp
  have sp: "skip_spaces fbuffer read_res (pos + 256) tr' =
            (pos + 256, BufRead (pos + 256) # tr')" for tr'
    using len b256 by (subst skip_spaces.simps) simp
  have "parse_next_kv fbuffer read_res pos line key val tr =
           \<lparr>ret = - 1, new_pos = pos + 256, new_line = line,
            out_key = map fbuffer [pos ..< pos + 256], out_value = val,
            log = BufRead (pos + 256) # BufRead (pos + 256) # KeyWrite 256 # t\<rparr>"
    unfolding rec using b256 by (simp add: parse_record_def key sp Let_def)
  then show ?thesis by blast
qed

lemma long_key_parse_error:
  assumes "pos + 256 < read_res"
      and "\<forall>i\<le>256. fbuffer (pos + i) \<noteq> EQ \<and> fbuffer (pos + i) \<noteq> NL \<and> fbuffer (pos + i) \<noteq> SP"
      and "fbuffer pos \<noteq> HASH"
  shows "ret (parse_next_kv fbuffer read_res pos line key val tr) = - 1 \<and>
         out_key (parse_next_kv fbuffer read_res pos line key val tr) =
           map fbuffer [pos ..< pos + 256]"
  using long_key_result [OF assms, of line key val tr] by auto

lemma long_key_writes_past_key:
  assumes "pos + 256 < read_res"
      and "\<forall>i\<le>256. fbuffer (pos + i) \<noteq> EQ \<and> fbuffer (pos + i) \<noteq> NL \<and> fbuffer (pos + i) \<noteq> SP"
      and "fbuffer pos \<noteq> HASH"
  shows "KeyWrite 256 \<in> set (log (parse_next_kv fbuffer read_res pos line key val tr))"
  using long_key_result [OF assms, of line key val tr] by auto

lemma long_key_line_bytes:
  "\<forall>i\<le>256. buffer_of long_key_line (0 + i) \<noteq> EQ \<and> buffer_of long_key_line (0 + i) \<noteq> NL \<and>
            buffer_of long_key_line (0 + i) \<noteq> SP"
  by (simp add: buffer_of_def long_key_line_def nth_append)

lemma skip_spaces_log: "skip_spaces fbuffer read_res pos tr = (p, t) \<Longrightarrow> set tr \<subseteq> set t"
  by (induction fbuffer read_res pos tr rule: skip_spaces.induct)
     (subst (asm) skip_spaces.simps, auto split: if_splits)

lemma scan_value_log: "scan_value fbuffer read_res pos val tr = (p, v, t) \<Longrightarrow> set tr \<subseteq> set t"
  by (induction fbuffer read_res pos val tr rule: scan_value.induct)
     (subst (asm) scan_value.simps, auto split: if_splits)

lemma trim_trailing_log: "trim_trailing val tr = (v, t) \<Longrightarrow> set tr \<subseteq> set t"
  by (induction val tr rule: trim_trailing.induct)
     (subst (asm) trim_trailing.simps, auto split: if_splits)

lemma strip_quotes_log: "strip_quotes val tr = (v, t) \<Longrightarrow> set tr \<subseteq> set t"
  by (auto simp: strip_quotes_def split: if_splits)

lemma key_to_end_reads_past_buffer:
  assumes inb: "pos < read_res" and short: "read_res - pos \<le> MAX_ITEM_LEN"
      and bytes: "\<forall>i < read_res - pos. fbuffer (pos + i) \<noteq> EQ \<and> fbuffer (pos + i) \<noteq> NL \<and>
                                       fbuffer (pos + i) \<noteq> SP"
      and first: "fbuffer pos \<noteq> HASH"
  shows "BufRead read_res \<in> set (log (parse_next_kv fbuffer read_res pos line key val tr))"
proof -
  from bytes inb have b0: "fbuffer pos \<noteq> EQ" "fbuffer pos \<noteq> NL" "fbuffer pos \<noteq> SP"
    by (auto dest: spec [of _ 0])
  have rec: "parse_next_kv fbuffer read_res pos line key val tr =
             parse_record fbuffer read_res pos line val (BufRead pos # tr)"
    using inb b0 first by (subst parse_next_kv.simps) simp
  obtain t where run: "scan_key fbuffer read_res pos [] (BufRead pos # tr) =
       scan_key fbuffer read_res (pos + (read_res - pos))
         ([] @ map fbuffer [pos ..< pos + (read_res - pos)]) t"
    using scan_key_run [of pos "read_res - pos" read_res "[]" fbuffer "BufRead pos # tr"]
          inb short bytes by auto
  define k where "k = map fbuffer [pos ..< pos + (read_res - pos)]"
  have key: "scan_key fbuffer read_res pos [] (BufRead pos # tr) = (read_res, k, t)"
    using run inb unfolding k_def by (subst (asm) (2) scan_key.simps) simp
  have sp: "skip_spaces fbuffer read_res read_res tr' = (read_res, tr')" for tr'
    by (subst skip_spaces.simps) simp
  show ?thesis
  proof (cases "fbuffer read_res = EQ")
    case False
    then show ?thesis unfolding rec by (simp add: parse_record_def key sp Let_def)
  next
    case True
    let ?tr4 = "BufRead read_res # KeyWrite (length k) # t"
    obtain p3 t5 where s3: "skip_spaces fbuffer read_res (Suc read_res) ?tr4 = (p3, t5)"
      by (cases "skip_spaces fbuffer read_res (Suc read_res) ?tr4")
    obtain p4 v t6 where s4: "scan_value fbuffer read_res p3 [] t5 = (p4, v, t6)"
      by (cases "scan_value fbuffer read_res p3 [] t5") auto
    obtain v1 t8 where s5: "trim_trailing v (ValueWrite (length v) # t6) = (v1, t8)"
      by (cases "trim_trailing v (ValueWrite (length v) # t6)")
    obtain v2 t9 where s6: "strip_quotes v1 t8 = (v2, t9)"
      by (cases "strip_quotes v1 t8")
    have "log (parse_record fbuffer read_res pos line val (BufRead pos # tr)) = t9"
      using True by (simp add: parse_record_def key sp s3 s4 s5 s6 Let_def)
    moreover have "BufRead read_res \<in> set t9"
      using skip_spaces_log [OF s3] scan_value_log [OF s4] trim_trailing_log [OF s5]
            strip_quotes_log [OF s6] by auto
    ultimately show ?thesis unfolding rec by simp
  qed
qed






lemma read_config_no_radio:
  "list_all (\<lambda>c. \<not> is_radio_call c) tr \<Longrightarrow>
   list_all (\<lambda>c. \<not> is_radio_call c) (snd (snd (read_config W tr config0)))"
  by (auto simp: read_config_def close_fd_def Let_def split: prod.splits if_splits)

lemma dev_get_rssi_no_fallback:
  "list_all (\<lambda>c. \<not> is_fallback_call c) tr \<Longrightarrow>
   list_all (\<lambda>c. \<not> is_fallback_call c) (snd (dev_get_rssi W tr dev_id handle))"
  by (auto simp: dev_get_rssi_def close_fd_def Let_def split: prod.splits if_splits)

lemma get_fresh_rssi_no_fallback:
  "list_all (\<lambda>c. \<not> is_fallback_call c) tr \<Longrightarrow>
   list_all (\<lambda>c. \<not> is_fallback_call c) (snd (get_fresh_rssi W tr hci_sock handle))"
  by (auto simp: get_fresh_rssi_def Let_def split: prod.splits if_splits)

lemma connected_rssi_no_fallback:
  assumes "list_all (\<lambda>c. \<not> is_fallback_call c) tr"
  shows "list_all (\<lambda>c. \<not> is_fallback_call c)
           (snd (connected_rssi W tr config dev_id hci_sock handle))"
proof -
  let ?first = "if request_update config \<noteq> 0 then get_fresh_rssi W tr hci_sock handle
                else dev_get_rssi W tr dev_id handle"
  have first: "list_all (\<lambda>c. \<not> is_fallback_call c) (snd ?first)"
    using assms dev_get_rssi_no_fallback get_fresh_rssi_no_fallback by simp
  obtain rssi tr1 where f: "?first = (rssi, tr1)" by (cases ?first)
  with first have tr1: "list_all (\<lambda>c. \<not> is_fallback_call c) tr1" by simp
  have "connected_rssi W tr config dev_id hci_sock handle =
        (if rssi \<noteq> 0 then (rssi, tr1) else dev_get_rssi W tr1 dev_id handle)"
    unfolding connected_rssi_def f by simp
  then show ?thesis using tr1 dev_get_rssi_no_fallback [OF tr1] by simp
qed

lemma check_connected_loop_find:
  "find (\<lambda>ci. conn_bdaddr ci = device_addr config) cs = Some ci \<Longrightarrow>
   check_connected_loop W tr config dev_id hci_sock cs =
     (case connected_rssi W tr config dev_id hci_sock (conn_handle ci) of (rssi, tr1) \<Rightarrow>
        if rssi = 0 then (0, tr1)
        else if sint rssi \<ge> min_strength config then (1, tr1)
        else (- 1, tr1))"
  by (induction cs) (auto simp: bacmp_def split: if_splits)

lemma find_Some_nonempty: "find P xs = Some x \<Longrightarrow> length xs \<noteq> 0"
  by (cases xs) auto

lemma dev_get_rssi_on_failure:
  "w_hci_open_dev W tr dev_id < 0 \<or>
   fst (w_hci_read_rssi W (tr @ [HciOpenDev dev_id]) (w_hci_open_dev W tr dev_id) handle 1000) < 0
   \<Longrightarrow> fst (dev_get_rssi W tr dev_id handle) = - 1"
  by (auto simp: dev_get_rssi_def Let_def split: prod.splits)

lemma is_device_trusted_gate:
  "w_getuid W tr \<noteq> 1 \<Longrightarrow> is_device_trusted W tr device_mac gadget_mac = (0, tr @ [Getuid])"
  by (simp add: is_device_trusted_def Let_def)



lemma is_device_trusted_calls_getuid:
  "list_ex is_fallback_call (snd (is_device_trusted W tr device_mac gadget_mac))"
  by (auto simp: is_device_trusted_def close_fd_def Let_def split: prod.splits if_splits)

lemma check_paired_device_proximity_calls_name:
  "list_ex is_fallback_call (snd (check_paired_device_proximity W tr hci_sock addr ms))"
  by (auto simp: check_paired_device_proximity_def Let_def split: prod.splits if_splits)

lemma check_paired_device_proximity_keeps:
  "list_ex is_fallback_call tr \<Longrightarrow>
   list_ex is_fallback_call (snd (check_paired_device_proximity W tr hci_sock addr ms))"
  by (auto simp: check_paired_device_proximity_def Let_def split: prod.splits if_splits)

lemma check_paired_device_is_fallback:
  "list_ex is_fallback_call (snd (check_paired_device W tr config hci_sock addrs))"
proof (cases "check_trusted config \<noteq> 0")
  case False
  then show ?thesis
    by (simp add: check_paired_device_def check_paired_device_proximity_calls_name)
next
  case True
  obtain res tr1 where t: "is_device_trusted W tr addrs (ba2str (device_addr config)) = (res, tr1)"
    by (cases "is_device_trusted W tr addrs (ba2str (device_addr config))")
  have "list_ex is_fallback_call tr1"
    using is_device_trusted_calls_getuid [of W tr addrs "ba2str (device_addr config)"] t by simp
  then show ?thesis
    using True t by (simp add: check_paired_device_def Let_def check_paired_device_proximity_keeps)
qed

lemma check_connected_loop_none:
  "find (\<lambda>ci. conn_bdaddr ci = device_addr config) cs = None \<Longrightarrow>
   check_connected_loop W tr config dev_id hci_sock cs = (0, tr)"
  by (induction cs) (auto simp: bacmp_def split: if_splits)

lemma list_ex_close_fd: "list_ex is_fallback_call (close_fd fd tr) = list_ex is_fallback_call tr"
  by (simp add: close_fd_def)

section \<open>The claims\<close>

text \<open>
  C1. The claim: \<open>dev_get_rssi\<close> returns 0 whenever opening the adapter or the cached
  read fails, so that the caller's test \<open>rssi == 0\<close> catches every failure. The code
  returns \<open>- 1\<close> on both failures. With the configured device connected and the cached
  read failing, the caller takes \<open>- 1\<close> for a signal of \<open>- 1\<close> dBm, which meets the
  threshold \<open>- 70\<close>: the connection check returns 1 and the engine grants.
\<close>

theorem dev_get_rssi_failure_is_minus_one:
  "fst (dev_get_rssi (sample_world 0 [] [target_conn] (- 1, 0)) [] 0 1) = - 1 \<and>
   fst (dev_get_rssi ((sample_world 0 [] [target_conn] (0, 0))
                        \<lparr>w_hci_open_dev := (\<lambda>h dev_id. - 1)\<rparr>) [] 0 1) = - 1 \<and>
   fst (check_connected_device (sample_world 0 [] [target_conn] (- 1, 0)) [] cfg70 0 4) = 1 \<and>
   fst (check_bluetooth_device (sample_world 0 [] [target_conn] (- 1, 0)) [] cfg70) = True"
  by code_simp

text \<open>
  C2. The claim: whenever the configured device appears in the connection list with a
  non-zero signal strictly below \<open>min_strength\<close>, the engine denies without the
  fallback, and only absence from the list or a zero signal leads to the fallback. The
  loop of \<open>check_connected_device\<close> stops at the first entry that carries the configured
  address, and a failed \<open>HCIGETCONNLIST\<close> returns 0 as well. As amended, with the adapter
  reached, the socket opened and the list allocated: the fallback path is entered exactly
  when the list cannot be obtained, or none of the entries returned carries the configured
  address, or the first one that does yields the signal 0; and when the list is obtained
  and that first entry yields a non-zero signal strictly below \<open>min_strength\<close>, the
  engine denies, with neither trust resolution nor the proximity probe invoked.
\<close>

theorem first_matching_signal_decides_fallback:
  assumes route: "w_hci_get_route W tr = dev_id" "0 \<le> dev_id"
      and devba: "w_hci_devba W (tr @ [HciGetRoute]) dev_id = (devba_res, local_addr)"
                 "0 \<le> devba_res"
      and sock: "w_hci_open_dev W (tr @ [HciGetRoute, HciDevba dev_id]) dev_id = hci_sock"
                "0 \<le> hci_sock"
      and alloc: "w_malloc W (tr @ [HciGetRoute, HciDevba dev_id, HciOpenDev dev_id])
                    (4 + MAX_DEVICES_LOOKDUP * 16)"
      and conns: "w_get_conn_list W
                    (tr @ [HciGetRoute, HciDevba dev_id, HciOpenDev dev_id,
                           Malloc (4 + MAX_DEVICES_LOOKDUP * 16)]) hci_sock dev_id =
                  (get_con_res, conns)"
      and signal: "signal = map_option
                     (\<lambda>ci. fst (connected_rssi W
                        (tr @ [HciGetRoute, HciDevba dev_id, HciOpenDev dev_id,
                               Malloc (4 + MAX_DEVICES_LOOKDUP * 16),
                               IoctlGetConnList hci_sock dev_id MAX_DEVICES_LOOKDUP])
                        config dev_id hci_sock (conn_handle ci)))
                     (find (\<lambda>ci. conn_bdaddr ci = device_addr config)
                        (take MAX_DEVICES_LOOKDUP conns))"
      and before: "\<not> list_ex is_fallback_call tr"
  shows "(list_ex is_fallback_call (snd (check_bluetooth_device W tr config)) \<longleftrightarrow>
            get_con_res < 0 \<or> signal = None \<or> signal = Some 0) \<and>
         (0 \<le> get_con_res \<and> signal = Some rssi \<and> rssi \<noteq> 0 \<and> sint rssi < min_strength config
            \<longrightarrow> \<not> fst (check_bluetooth_device W tr config))"
proof -
  let ?tr3 = "tr @ [HciGetRoute, HciDevba dev_id, HciOpenDev dev_id]"
  let ?tr4 = "tr @ [HciGetRoute, HciDevba dev_id, HciOpenDev dev_id,
                    Malloc (4 + MAX_DEVICES_LOOKDUP * 16)]"
  let ?tr5 = "tr @ [HciGetRoute, HciDevba dev_id, HciOpenDev dev_id,
                    Malloc (4 + MAX_DEVICES_LOOKDUP * 16),
                    IoctlGetConnList hci_sock dev_id MAX_DEVICES_LOOKDUP]"
  let ?cs = "take MAX_DEVICES_LOOKDUP conns"
  let ?paired = "check_paired_device W ?tr5 config hci_sock (ba2str local_addr)"
  have clean5: "list_all (\<lambda>c. \<not> is_fallback_call c) ?tr5"
    using before by (simp add: list_ex_iff list_all_iff)
  have eng: "check_bluetooth_device W tr config =
        (case check_connected_device W ?tr3 config dev_id hci_sock of (conn_is, tr4) \<Rightarrow>
           if conn_is = 0 then
             (case check_paired_device W tr4 config hci_sock (ba2str local_addr) of
                (paired, tr5) \<Rightarrow> (paired, close_fd hci_sock tr5))
           else (conn_is = 1, close_fd hci_sock tr4))"
    using route devba sock by (simp add: check_bluetooth_device_def Let_def)
  have fallback: "check_connected_device W ?tr3 config dev_id hci_sock = (0, ?tr5) \<Longrightarrow>
        list_ex is_fallback_call (snd (check_bluetooth_device W tr config))"
  proof -
    assume c: "check_connected_device W ?tr3 config dev_id hci_sock = (0, ?tr5)"
    obtain paired t where p: "?paired = (paired, t)" by (cases ?paired)
    have "list_ex is_fallback_call t"
      using check_paired_device_is_fallback [of W ?tr5 config hci_sock "ba2str local_addr"] p
      by simp
    then show ?thesis unfolding eng c using p by (simp add: list_ex_close_fd)
  qed
  show ?thesis
  proof (cases "get_con_res < 0")
    case True
    have "check_connected_device W ?tr3 config dev_id hci_sock = (0, ?tr5)"
      using alloc conns True by (simp add: check_connected_device_def Let_def)
    from fallback [OF this] True show ?thesis by simp
  next
    case ok: False
    show ?thesis
    proof (cases "find (\<lambda>ci. conn_bdaddr ci = device_addr config) ?cs")
      case None
      have "check_connected_loop W ?tr5 config dev_id hci_sock ?cs = (0, ?tr5)"
        using None by (rule check_connected_loop_none)
      then have "check_connected_device W ?tr3 config dev_id hci_sock = (0, ?tr5)"
        using alloc conns ok
        by (simp add: check_connected_device_def Let_def del: length_take take_eq_Nil)
      from fallback [OF this] None signal show ?thesis by simp
    next
      case (Some ci)
      obtain r t where s: "connected_rssi W ?tr5 config dev_id hci_sock (conn_handle ci) = (r, t)"
        by (cases "connected_rssi W ?tr5 config dev_id hci_sock (conn_handle ci)")
      have sig: "signal = Some r" using signal Some s by simp
      have nonempty: "length ?cs \<noteq> 0" using Some by (rule find_Some_nonempty)
      have loop: "check_connected_loop W ?tr5 config dev_id hci_sock ?cs =
                  (if r = 0 then (0, t)
                   else if sint r \<ge> min_strength config then (1, t) else (- 1, t))"
        using check_connected_loop_find [OF Some, of W ?tr5 dev_id hci_sock] s by simp
      have conn: "check_connected_device W ?tr3 config dev_id hci_sock =
                  (if r = 0 then (0, t)
                   else if sint r \<ge> min_strength config then (1, t) else (- 1, t))"
        using alloc conns ok nonempty loop
        by (simp add: check_connected_device_def Let_def del: length_take take_eq_Nil)
      have clean_t: "list_all (\<lambda>c. \<not> is_fallback_call c) t"
        using connected_rssi_no_fallback [OF clean5, of W config dev_id hci_sock "conn_handle ci"] s
        by simp
      show ?thesis
      proof (cases "r = 0")
        case True
        obtain paired t' where p: "check_paired_device W t config hci_sock (ba2str local_addr) =
                                   (paired, t')"
          by (cases "check_paired_device W t config hci_sock (ba2str local_addr)")
        have "list_ex is_fallback_call t'"
          using check_paired_device_is_fallback [of W t config hci_sock "ba2str local_addr"] p
          by simp
        then have "list_ex is_fallback_call (snd (check_bluetooth_device W tr config))"
          unfolding eng conn using True p by (simp add: list_ex_close_fd)
        then show ?thesis using sig True by auto
      next
        case False
        have res: "check_bluetooth_device W tr config =
                   (sint r \<ge> min_strength config, close_fd hci_sock t)"
          unfolding eng conn using False by simp
        have "\<not> list_ex is_fallback_call t"
          using clean_t by (simp add: list_ex_iff list_all_iff)
        then have "\<not> list_ex is_fallback_call (close_fd hci_sock t)"
          by (simp add: list_ex_close_fd)
        then show ?thesis unfolding res using sig False ok by auto
      qed
    qed
  qed
qed

theorem first_matching_signal_decides_fallback_witness:
  "\<not> list_ex is_fallback_call (snd (check_bluetooth_device weak_world [] cfg70)) \<and>
   \<not> fst (check_bluetooth_device weak_world [] cfg70)"
proof -
  have route: "w_hci_get_route weak_world [] = 0" "(0::int) \<le> 0"
    by (simp_all add: weak_world_def sample_world_def)
  have devba: "w_hci_devba weak_world ([] @ [HciGetRoute]) 0 = (0, BDADDR 1 2 3 4 5 6)" "(0::int) \<le> 0"
    by (simp_all add: weak_world_def sample_world_def)
  have sock: "w_hci_open_dev weak_world ([] @ [HciGetRoute, HciDevba 0]) 0 = 4" "(0::int) \<le> 4"
    by (simp_all add: weak_world_def sample_world_def)
  have alloc: "w_malloc weak_world ([] @ [HciGetRoute, HciDevba 0, HciOpenDev 0])
                    (4 + MAX_DEVICES_LOOKDUP * 16)"
    by (simp add: weak_world_def sample_world_def)
  have conns: "w_get_conn_list weak_world
                    ([] @ [HciGetRoute, HciDevba 0, HciOpenDev 0,
                           Malloc (4 + MAX_DEVICES_LOOKDUP * 16)]) 4 0 =
                  (0, [target_conn])"
    by (simp add: weak_world_def sample_world_def)
  have signal: "Some (- 80 :: 8 word) = map_option
                     (\<lambda>ci. fst (connected_rssi weak_world
                        ([] @ [HciGetRoute, HciDevba 0, HciOpenDev 0,
                               Malloc (4 + MAX_DEVICES_LOOKDUP * 16),
                               IoctlGetConnList 4 0 MAX_DEVICES_LOOKDUP])
                        cfg70 0 4 (conn_handle ci)))
                     (find (\<lambda>ci. conn_bdaddr ci = device_addr cfg70)
                        (take MAX_DEVICES_LOOKDUP [target_conn]))"
    by (simp add: connected_rssi_def dev_get_rssi_def weak_world_def sample_world_def cfg70_def
                  target_conn_def close_fd_def Let_def MAX_DEVICES_LOOKDUP_def)
  have before: "\<not> list_ex is_fallback_call []" by simp
  have weak: "sint (- 80 :: 8 word) < min_strength cfg70" by (simp add: cfg70_def)
  show ?thesis
    using first_matching_signal_decides_fallback
            [OF route devba sock alloc conns signal before, of "- 80"] weak
    by simp
qed

theorem weak_second_link_counterexample:
  "snd (w_get_conn_list two_links_world [] 4 0) = [target_conn, second_link] \<and>
   conn_bdaddr second_link = device_addr cfg70 \<and>
   fst (dev_get_rssi two_links_world [] 0 (conn_handle second_link)) = - 80 \<and>
   sint (- 80 :: 8 word) < min_strength cfg70 \<and>
   fst (check_bluetooth_device two_links_world [] cfg70) = True \<and>
   list_ex is_fallback_call (snd (check_bluetooth_device two_links_world [] cfg70)) \<and>
   fst (w_get_conn_list no_list_world [] 4 0) = - 1 \<and>
   list_ex is_fallback_call (snd (check_bluetooth_device no_list_world [] cfg70))"
  by code_simp




text \<open>
  C4. The claim: every threshold the loader stores is in \<open>[-128, -1]\<close>. The loader
  computes \<open>-abs (atoi (value))\<close> as an \<open>int\<close> and stores it in an \<open>int8_t\<close>, which
  keeps the low 8 bits: \<open>min_strength=200\<close> gives \<open>- 200\<close>, stored as 56. The load
  succeeds with the positive threshold 56.
\<close>

theorem read_config_strength_200_stores_56:
  "fst (read_config (sample_world 0 conf_strength_200 [] (0, 0)) [] cfg0) = 0 \<and>
   min_strength (fst (snd (read_config (sample_world 0 conf_strength_200 [] (0, 0)) [] cfg0)))
     = 56"
  by code_simp

text \<open>
  C5. The claim: every read of the buffer is at an offset below \<open>read_res\<close> and every
  write to \<open>key\<close> and \<open>value\<close> is at an index below 256. When the key loop stops at
  the end of the buffer, the test \<^verbatim>\<open>fbuffer[*pos] != '='\<close> reads offset \<open>read_res\<close>:
  offset 3 of the 3-byte buffer \<open>abc\<close>, and offset 1024, past the allocation, when a
  full buffer ends inside a key. When 256 bytes were copied, the terminating NUL is written
  at index 256 of \<open>key\<close> and of \<open>value\<close>.
\<close>

theorem parse_next_kv_reads_past_buffer:
  "BufRead 3 \<in> set (log (parse_next_kv (buffer_of ''abc'') 3 0 0 [] [] [])) \<and>
   BufRead 1024 \<in> set (log (parse_next_kv (\<lambda>i. CHR ''a'') 1024 1021 0 [] [] [])) \<and>
   KeyWrite 256 \<in> set (log (parse_next_kv (buffer_of long_key_line) 260 0 0 [] [] [])) \<and>
   ValueWrite 256 \<in> set (log (parse_next_kv (buffer_of long_value_line) 259 0 0 [] [] []))"
proof -
  have "BufRead 3 \<in> set (log (parse_next_kv (buffer_of ''abc'') 3 0 0 [] [] []))"
    by code_simp
  moreover have "BufRead 1024 \<in> set (log (parse_next_kv (\<lambda>i. CHR ''a'') 1024 1021 0 [] [] []))"
    by (rule key_to_end_reads_past_buffer) (simp_all add: MAX_ITEM_LEN_def)
  moreover have "KeyWrite 256 \<in> set (log (parse_next_kv (buffer_of long_key_line) 260 0 0 [] [] []))"
    using long_key_writes_past_key [of 0 260 "buffer_of long_key_line" 0 "[]" "[]" "[]"]
          long_key_line_bytes
    by (simp add: buffer_of_def long_key_line_def nth_append)
  moreover have "ValueWrite 256 \<in>
      set (log (parse_next_kv (buffer_of long_value_line) 259 0 0 [] [] []))"
    by code_simp
  ultimately show ?thesis by blast
qed

text \<open>
  C6. The claim: a parse error while draining the configuration file makes the load fail.
  \<open>read_config\<close> never looks at \<open>parse_result\<close> after its loop: with \<open>device\<close>
  and \<open>min_strength\<close> read before the line \<open>garbage\<close>, the drain ends with
  \<open>- 1\<close> and the load returns 0.
\<close>

theorem read_config_succeeds_after_parse_error:
  "snd (read_config_loop (buffer_of conf_with_garbage) (length conf_with_garbage) 0 0 [] []
          (cfg0, 0, 0)) = - 1 \<and>
   fst (read_config (sample_world 0 conf_with_garbage [] (0, 0)) [] cfg0) = 0"
  by code_simp

text \<open>
  C7. The claim: a key longer than 256 bytes followed by \<open>=\<close> and a value is truncated
  to its first 256 bytes and the record is still produced. The code copies the first 256
  bytes and then requires \<open>=\<close> at the 257th byte of the key, so the call fails with
  the parse error and produces no record. As amended: with the cursor on a key of more than
  256 bytes inside the buffer, \<open>parse_next_kv\<close> returns \<open>- 1\<close>, the key array holding
  the first 256 bytes of the key.
\<close>

theorem long_key_is_rejected:
  assumes "pos + 256 < read_res"
      and "\<forall>i\<le>256. fbuffer (pos + i) \<noteq> EQ \<and> fbuffer (pos + i) \<noteq> NL \<and> fbuffer (pos + i) \<noteq> SP"
      and "fbuffer pos \<noteq> HASH"
  shows "ret (parse_next_kv fbuffer read_res pos line key val tr) = - 1 \<and>
         out_key (parse_next_kv fbuffer read_res pos line key val tr) =
           map fbuffer [pos ..< pos + 256]"
  using assms by (rule long_key_parse_error)

theorem long_key_is_rejected_witness:
  "ret (parse_next_kv (buffer_of long_key_line) 260 0 0 [] [] []) = - 1 \<and>
   out_key (parse_next_kv (buffer_of long_key_line) 260 0 0 [] [] []) =
     map (buffer_of long_key_line) [0 ..< 0 + 256]"
proof -
  have h1: "(0 :: nat) + 256 < 260" by simp
  have h3: "buffer_of long_key_line 0 \<noteq> HASH"
    by (simp add: buffer_of_def long_key_line_def nth_append)
  show ?thesis
    using long_key_is_rejected [OF h1 long_key_line_bytes h3, of 0 "[]" "[]" "[]"]
    by blast
qed

theorem long_key_record_counterexample:
  "length long_key_line = 260 \<and> take 257 long_key_line = replicate 257 (CHR ''k'') \<and>
   long_key_line ! 257 = EQ \<and>
   ret (parse_next_kv (buffer_of long_key_line) 260 0 0 [] [] []) \<noteq> 1"
proof -
  have h1: "(0 :: nat) + 256 < 260" by simp
  have h3: "buffer_of long_key_line 0 \<noteq> HASH"
    by (simp add: buffer_of_def long_key_line_def nth_append)
  have "ret (parse_next_kv (buffer_of long_key_line) 260 0 0 [] [] []) = - 1"
    using long_key_parse_error [OF h1 long_key_line_bytes h3, of 0 "[]" "[]" "[]"] by blast
  then show ?thesis
    by (simp add: long_key_line_def nth_append)
qed

text \<open>
  C8. The claim: the line counter is 1 on the first line and a run of \<open>k\<close> newlines
  advances it by \<open>k\<close>. Both callers start the counter at 0; the newline that ends a
  record and the first newline of a run are consumed without counting. On
  \<open>a=1\<close>, newline, \<open>b=2\<close>, newline, both records carry line 0, and a run of three
  newlines advances the counter by 2.
\<close>

theorem parse_next_kv_line_numbers_off:
  "new_line (parse_next_kv (buffer_of (''a=1'' @ [NL] @ ''b=2'' @ [NL])) 8 0 0 [] [] []) = 0 \<and>
   new_pos (parse_next_kv (buffer_of (''a=1'' @ [NL] @ ''b=2'' @ [NL])) 8 0 0 [] [] []) = 4 \<and>
   out_key (parse_next_kv (buffer_of (''a=1'' @ [NL] @ ''b=2'' @ [NL])) 8 4 0 ''a'' ''1'' []) = ''b'' \<and>
   new_line (parse_next_kv (buffer_of (''a=1'' @ [NL] @ ''b=2'' @ [NL])) 8 4 0 ''a'' ''1'' []) = 0 \<and>
   new_line (parse_next_kv (buffer_of ([NL, NL, NL] @ ''k=v'')) 6 0 0 [] [] []) = 2"
  by code_simp

text \<open>
  C9. The claim: a caller without the elevated privilege gets not-trusted, and the
  pairing-status file is not opened. The gate is \<^verbatim>\<open>getuid() != 1\<close>, and its message
  names root, which is uid 0. A process running as uid 1 is not root, yet the file is
  opened and read, and the device is reported trusted; root itself is turned away.
\<close>

theorem is_device_trusted_uid_1_opens_file:
  "is_device_trusted (sample_world 1 (''Trusted=true'' @ [NL]) [] (0, 0)) []
     ''00:11:22:33:44:55'' ''AA:BB:CC:DD:EE:FF'' =
   (1, [Getuid, Open ''/var/lib/bluetooth/00:11:22:33:44:55/AA:BB:CC:DD:EE:FF/info'',
        Malloc 1024, Read 3 1024, Close 3]) \<and>
   is_device_trusted (sample_world 0 (''Trusted=true'' @ [NL]) [] (0, 0)) []
     ''00:11:22:33:44:55'' ''AA:BB:CC:DD:EE:FF'' = (0, [Getuid])"
  by code_simp

text \<open>
  C10. Whenever the credential the host supplies is not empty and \<open>allow_with_password\<close>
  is not among the module arguments, \<open>pam_sm_authenticate\<close> returns \<open>PAM_AUTH_ERR\<close>,
  and it makes no radio call: \<open>check_bluetooth_device\<close> is not invoked.
\<close>

theorem non_empty_credential_is_denied_without_radio:
  assumes "\<not> list_ex (\<lambda>a. strcmp_eq0 a ''allow_with_password'') argv"
      and "w_pam_get_authtok W (snd (snd (read_config W tr config0))) = (PAM_SUCCESS, Some pw)"
      and "pw \<noteq> []" and "hd pw \<noteq> NUL"
  shows "fst (pam_sm_authenticate W tr argv config0) = PAM_AUTH_ERR \<and>
         (list_all (\<lambda>c. \<not> is_radio_call c) tr \<longrightarrow>
          list_all (\<lambda>c. \<not> is_radio_call c) (snd (pam_sm_authenticate W tr argv config0)))"
proof -
  obtain rc config tr1 where rc: "read_config W tr config0 = (rc, config, tr1)"
    by (cases "read_config W tr config0")
  have tok: "w_pam_get_authtok W tr1 = (PAM_SUCCESS, Some pw)"
    using assms(2) rc by simp
  have res: "pam_sm_authenticate W tr argv config0 =
        (PAM_AUTH_ERR, if rc \<noteq> 0 then tr1 else tr1 @ [PamGetAuthtok])"
    using assms(1,3,4) by (simp add: pam_sm_authenticate_def rc tok Let_def)
  have "list_all (\<lambda>c. \<not> is_radio_call c) tr \<Longrightarrow> list_all (\<lambda>c. \<not> is_radio_call c) tr1"
    using read_config_no_radio [of tr W config0] rc by simp
  then show ?thesis unfolding res by simp
qed

theorem non_empty_credential_is_denied_without_radio_witness:
  "fst (pam_sm_authenticate password_world [] [] cfg0) = PAM_AUTH_ERR \<and>
   list_all (\<lambda>c. \<not> is_radio_call c) (snd (pam_sm_authenticate password_world [] [] cfg0))"
proof -
  have h1: "\<not> list_ex (\<lambda>a. strcmp_eq0 a ''allow_with_password'') []" by simp
  have h2: "w_pam_get_authtok password_world (snd (snd (read_config password_world [] cfg0))) =
     (PAM_SUCCESS, Some ''secret'')"
    by (simp add: password_world_def sample_world_def)
  have h3: "''secret'' \<noteq> []" by simp
  have h4: "hd ''secret'' \<noteq> NUL" by simp
  show ?thesis
    using non_empty_credential_is_denied_without_radio [OF h1 h2 h3 h4] by simp
qed

end
